theory Spec2Isabelle
  imports Main
begin

section \<open>The base item: \<^verbatim>\<open>include/class_board_item.h\<close>\<close>

text \<open>
  Objects are referred to by address. \<open>wxPoint\<close> is the integer point of wxWidgets.
\<close>

type_synonym addr = nat

type_synonym wxPoint = "int \<times> int"

text \<open>
  The state of a \<open>BOARD_ITEM\<close>. \<open>m_Parent\<close> is inherited from \<open>EDA_ITEM\<close> and read by
  \<open>GetParent\<close>; \<open>m_Layer\<close> is the member the class declares itself. Its type
  \<open>LAYER_NUM\<close> is declared in a header that is not part of the sources, so it is the
  type parameter \<open>'layer\<close>. The \<open>Pnext\<close>/\<open>Pback\<close> linkage, which the class reserves
  to \<open>DLIST\<close>, is represented by the owning list's sequence in \<open>board_store\<close> below.
  The state a derived class adds lives in the record's extension.
\<close>

record 'layer BOARD_ITEM =
  m_Parent :: "addr option"
  m_Layer :: 'layer

definition GetLayer :: "('layer, 'more) BOARD_ITEM_scheme \<Rightarrow> 'layer" where
  "GetLayer this = m_Layer this"

text \<open>
  \<open>SetLayer\<close>: the range assertion of the source is commented out, the body is the
  single assignment \<open>m_Layer = aLayer\<close>.
\<close>

definition SetLayer ::
  "'layer \<Rightarrow> ('layer, 'more) BOARD_ITEM_scheme \<Rightarrow> ('layer, 'more) BOARD_ITEM_scheme" where
  "SetLayer aLayer this = this\<lparr>m_Layer := aLayer\<rparr>"

definition IsOnLayer :: "'layer \<Rightarrow> ('layer, 'more) BOARD_ITEM_scheme \<Rightarrow> bool" where
  "IsOnLayer aLayer this = (m_Layer this = aLayer)"

subsection \<open>The default geometric transforms\<close>

text \<open>
  \<open>wxMessageBox\<close> belongs to wxWidgets. It shows a modal dialog with a message and a
  caption; the model records the dialogs shown, in order, as the user-visible part of
  the state. The default \<open>Move\<close>, \<open>Rotate\<close> and \<open>Flip\<close> ignore their arguments, show
  one dialog captioned with the item's class name and return. \<open>GetClass\<close> is a virtual
  of \<open>EDA_ITEM\<close>, taken as a parameter; the rotation angle is a \<open>double\<close> that the body
  never reads, so its type is left open.
\<close>

type_synonym dialogs = "(string \<times> string) list"

definition wxMessageBox :: "string \<Rightarrow> string \<Rightarrow> dialogs \<Rightarrow> dialogs" where
  "wxMessageBox message caption ui = ui @ [(message, caption)]"

definition Move ::
  "('item \<Rightarrow> string) \<Rightarrow> wxPoint \<Rightarrow> 'item \<times> dialogs \<Rightarrow> 'item \<times> dialogs" where
  "Move GetClass aMoveVector s =
     (case s of (this, ui) \<Rightarrow>
        (this, wxMessageBox ''virtual BOARD_ITEM::Move used, should not occur'' (GetClass this) ui))"

definition Rotate ::
  "('item \<Rightarrow> string) \<Rightarrow> wxPoint \<Rightarrow> 'angle \<Rightarrow> 'item \<times> dialogs \<Rightarrow> 'item \<times> dialogs" where
  "Rotate GetClass aRotCentre aAngle s =
     (case s of (this, ui) \<Rightarrow>
        (this, wxMessageBox ''virtual BOARD_ITEM::Rotate used, should not occur'' (GetClass this) ui))"

definition Flip ::
  "('item \<Rightarrow> string) \<Rightarrow> wxPoint \<Rightarrow> 'item \<times> dialogs \<Rightarrow> 'item \<times> dialogs" where
  "Flip GetClass aCentre s =
     (case s of (this, ui) \<Rightarrow>
        (this, wxMessageBox ''virtual BOARD_ITEM::Flip used, should not occur'' (GetClass this) ui))"

subsection \<open>Unlinking and deleting an item\<close>

text \<open>
  The store holds the allocated items by address, for every owning list the sequence
  of the items linked into it, and for every item its back-reference to the list that
  owns it (\<open>None\<close> for a detached item).
\<close>

record 'layer board_store =
  objects :: "addr \<Rightarrow> 'layer BOARD_ITEM option"
  dlists :: "addr \<Rightarrow> addr list"
  owner :: "addr \<Rightarrow> addr option"

text \<open>
  Modelled from the spec: the body of \<open>BOARD_ITEM::UnLink\<close>, which the header only
  declares. It removes the item from the internal linkage of the list that owns it
  without destroying it, and is a no-op on an item that is already detached. A detached
  item keeps no back-reference to a list.
\<close>

definition UnLink :: "'layer board_store \<Rightarrow> addr \<Rightarrow> 'layer board_store" where
  "UnLink s this =
     (case owner s this of
        None \<Rightarrow> s
      | Some l \<Rightarrow>
          s\<lparr>dlists := (dlists s)(l := remove1 this (dlists s l)),
            owner := (owner s)(this := None)\<rparr>)"

text \<open>The C++ statement \<open>delete this\<close>: the object is no longer allocated.\<close>

definition delete_this :: "'layer board_store \<Rightarrow> addr \<Rightarrow> 'layer board_store" where
  "delete_this s this = s\<lparr>objects := (objects s)(this := None)\<rparr>"

text \<open>\<open>DeleteStructure\<close>, as the header defines it inline: \<open>UnLink(); delete this;\<close>\<close>

definition DeleteStructure :: "'layer board_store \<Rightarrow> addr \<Rightarrow> 'layer board_store" where
  "DeleteStructure s this = delete_this (UnLink s this) this"

text \<open>
  The ownership discipline of the store: no list holds an item twice, an item is in a
  list exactly when its back-reference names that list, and a linked item is allocated.
  An item is half-linked when it is in a list that its back-reference does not name, or
  names a list that does not hold it.
\<close>

definition owned_once :: "'layer board_store \<Rightarrow> bool" where
  "owned_once s =
     ((\<forall>l. distinct (dlists s l)) \<and>
      (\<forall>l a. a \<in> set (dlists s l) \<longleftrightarrow> owner s a = Some l) \<and>
      (\<forall>a l. owner s a = Some l \<longrightarrow> objects s a \<noteq> None))"

definition detached :: "'layer board_store \<Rightarrow> addr \<Rightarrow> bool" where
  "detached s a = (owner s a = None)"

definition demo_store :: "nat board_store" where
  "demo_store =
     \<lparr>objects = [1 \<mapsto> \<lparr>m_Parent = None, m_Layer = 0\<rparr>,
                 2 \<mapsto> \<lparr>m_Parent = None, m_Layer = 15\<rparr>,
                 3 \<mapsto> \<lparr>m_Parent = None, m_Layer = 0\<rparr>,
                 4 \<mapsto> \<lparr>m_Parent = None, m_Layer = 0\<rparr>],
      dlists = (\<lambda>_. [])(10 := [1, 2, 3]),
      owner = [1 \<mapsto> 10, 2 \<mapsto> 10, 3 \<mapsto> 10]\<rparr>"

section \<open>The list of screens of a hierarchy: \<^verbatim>\<open>include/class_sch_screen.h\<close>\<close>

text \<open>
  The hierarchical design as the traversal sees it: an item is either a hierarchical
  sheet, which references a screen (identified by its address) holding further items,
  or any other item. Several sheets may reference the screen of one address; nothing
  below needs two such references to carry the same items.
\<close>

datatype SCH_ITEM = SCH_SHEET addr "SCH_ITEM list" | SCH_OTHER

text \<open>
  \<open>SCH_SCREENS\<close> as the header declares it: the vector of screen pointers and the
  iteration cursor. The cursor is an \<open>unsigned int\<close>; the operations below never move
  it past the length of the vector, so it is a natural number here.
\<close>

record SCH_SCREENS =
  m_screens :: "addr list"
  m_index :: nat

text \<open>
  Modelled from the spec: the body of \<open>SCH_SCREENS::AddScreenToList\<close>, which the header
  only declares. A screen is registered once, whatever the number of hierarchy nodes
  that reference it: it is added unless a screen of the same identity is already there.
\<close>

definition AddScreenToList :: "addr \<Rightarrow> SCH_SCREENS \<Rightarrow> SCH_SCREENS" where
  "AddScreenToList aScreen r =
     (if aScreen \<in> set (m_screens r) then r
      else r\<lparr>m_screens := m_screens r @ [aScreen]\<rparr>)"

text \<open>
  Modelled from the spec: the body of \<open>SCH_SCREENS::BuildScreenList\<close>, which the header
  only declares. The traversal registers the screen a sheet item references and goes on
  through every item of that screen that itself references a screen.
\<close>

fun BuildScreenList :: "SCH_ITEM \<Rightarrow> SCH_SCREENS \<Rightarrow> SCH_SCREENS" where
  "BuildScreenList (SCH_SHEET scr items) r = fold BuildScreenList items (AddScreenToList scr r)"
| "BuildScreenList SCH_OTHER r = r"

text \<open>
  Modelled from the spec: the constructor \<open>SCH_SCREENS::SCH_SCREENS\<close>, which the header
  only declares. The registry is built by traversal from the root of the design.
\<close>

definition SCH_SCREENS_ctor :: "SCH_ITEM \<Rightarrow> SCH_SCREENS" where
  "SCH_SCREENS_ctor root = BuildScreenList root \<lparr>m_screens = [], m_index = 0\<rparr>"

text \<open>
  Modelled from the spec: \<open>GetScreen\<close>, \<open>GetFirst\<close> and \<open>GetNext\<close>, which the header
  only declares: a stateful iteration cursor over the registered screens. A position
  past the end yields no screen.
\<close>

definition GetScreen :: "nat \<Rightarrow> SCH_SCREENS \<Rightarrow> addr option" where
  "GetScreen aIndex r =
     (if aIndex < length (m_screens r) then Some (m_screens r ! aIndex) else None)"

definition GetFirst :: "SCH_SCREENS \<Rightarrow> addr option \<times> SCH_SCREENS" where
  "GetFirst r = (GetScreen 0 r, r\<lparr>m_index := 0\<rparr>)"

definition GetNext :: "SCH_SCREENS \<Rightarrow> addr option \<times> SCH_SCREENS" where
  "GetNext r =
     (let i = (if m_index r < length (m_screens r) then m_index r + 1 else m_index r)
      in (GetScreen i r, r\<lparr>m_index := i\<rparr>))"

text \<open>
  The registries a program can hold: the constructor's result, and what the operations
  on a registry make of one. The hierarchy-wide operations (\<open>ClearAnnotation\<close>,
  \<open>SchematicCleanUp\<close>, \<open>ReplaceDuplicateTimeStamps\<close>, \<open>SetDate\<close>) work on the screens
  the registry points to and leave the registry itself as it is.
\<close>

inductive registry_reach :: "SCH_SCREENS \<Rightarrow> bool" where
  reach_ctor: "registry_reach (SCH_SCREENS_ctor root)"
| reach_AddScreenToList: "registry_reach r \<Longrightarrow> registry_reach (AddScreenToList aScreen r)"
| reach_BuildScreenList: "registry_reach r \<Longrightarrow> registry_reach (BuildScreenList aItem r)"
| reach_GetFirst: "registry_reach r \<Longrightarrow> registry_reach (snd (GetFirst r))"
| reach_GetNext: "registry_reach r \<Longrightarrow> registry_reach (snd (GetNext r))"

text \<open>The screens a design references, for stating what the traversal finds.\<close>

fun screens_of :: "SCH_ITEM \<Rightarrow> addr set" where
  "screens_of (SCH_SHEET scr items) = insert scr (\<Union> (screens_of ` set items))"
| "screens_of SCH_OTHER = {}"

definition demo_design :: SCH_ITEM where
  "demo_design =
     SCH_SHEET 0 [SCH_SHEET 1 [], SCH_OTHER, SCH_SHEET 1 [], SCH_SHEET 2 [SCH_SHEET 1 []]]"

section \<open>Properties of the base item\<close>

lemma IsOnLayer_SetLayer: "IsOnLayer l (SetLayer l' this) = (l' = l)"
  by (simp add: IsOnLayer_def SetLayer_def)

text \<open>
  Claim C5. \<open>SetLayer\<close> validates nothing: whatever layer value it is given, legal or
  not, it stores that value, a following \<open>GetLayer\<close> returns exactly it, and no other
  part of the item changes.
\<close>

theorem SetLayer_stores_any_layer:
  "GetLayer (SetLayer l this) = l
   \<and> m_Parent (SetLayer l this) = m_Parent this
   \<and> BOARD_ITEM.more (SetLayer l this) = BOARD_ITEM.more this"
  by (simp add: GetLayer_def SetLayer_def)

text \<open>
  Claim C6. The default \<open>Move\<close>, \<open>Rotate\<close> and \<open>Flip\<close> are never silent: each shows
  exactly one more dialog, whose message says that the base-class transform was used and
  should not occur, captioned with the item's class; the item itself is left as it was.
\<close>

theorem default_transform_signals:
  "snd (Move gc v (this, ui)) = ui @ [(''virtual BOARD_ITEM::Move used, should not occur'', gc this)]
   \<and> snd (Rotate gc c a (this, ui)) = ui @ [(''virtual BOARD_ITEM::Rotate used, should not occur'', gc this)]
   \<and> snd (Flip gc c (this, ui)) = ui @ [(''virtual BOARD_ITEM::Flip used, should not occur'', gc this)]
   \<and> snd (Move gc v (this, ui)) \<noteq> ui
   \<and> snd (Rotate gc c a (this, ui)) \<noteq> ui
   \<and> snd (Flip gc c (this, ui)) \<noteq> ui
   \<and> fst (Move gc v (this, ui)) = this
   \<and> fst (Rotate gc c a (this, ui)) = this
   \<and> fst (Flip gc c (this, ui)) = this"
  by (simp add: Move_def Rotate_def Flip_def wxMessageBox_def)

section \<open>Unlink, then destroy\<close>

lemma UnLink_detached: "detached s a \<Longrightarrow> UnLink s a = s"
  by (simp add: detached_def UnLink_def)

lemma UnLink_objects: "objects (UnLink s a) = objects s"
  by (simp add: UnLink_def split: option.splits)

lemma UnLink_owner: "owner (UnLink s a) = (owner s)(a := None)"
  by (auto simp: UnLink_def split: option.splits)

lemma UnLink_not_in_list:
  assumes "owned_once s"
  shows "a \<notin> set (dlists (UnLink s a) l)"
proof (cases "owner s a")
  case None
  with assms show ?thesis by (simp add: UnLink_def owned_once_def)
next
  case (Some l')
  with assms show ?thesis by (auto simp: UnLink_def owned_once_def)
qed

lemma UnLink_owned_once:
  assumes "owned_once s"
  shows "owned_once (UnLink s a)"
proof (cases "owner s a")
  case None
  with assms show ?thesis by (simp add: UnLink_def)
next
  case (Some l')
  with assms show ?thesis
    unfolding owned_once_def UnLink_def by auto
qed

lemma delete_this_owned_once:
  assumes "owned_once s" and "owner s a = None"
  shows "owned_once (delete_this s a)"
  using assms unfolding owned_once_def delete_this_def by auto

lemma DeleteStructure_other_objects:
  "b \<noteq> a \<Longrightarrow> objects (DeleteStructure s a) b = objects s b"
  by (simp add: DeleteStructure_def delete_this_def UnLink_objects)

lemma demo_store_owned_once: "owned_once demo_store"
  by (auto simp: owned_once_def demo_store_def split: if_splits)

text \<open>
  Claim C9. In a store that keeps the ownership discipline, \<open>DeleteStructure\<close> is the
  unlink step followed by the destruction. Between the two, no list holds the item any
  more, the item has no back-reference, the allocated objects are untouched (the item is
  not yet destroyed) and the discipline holds, so the item is not half-linked. On an
  item that is already detached the unlink step changes nothing. After the destruction
  the item is gone, no list refers to it and the discipline still holds.
\<close>

theorem DeleteStructure_unlinks_then_destroys:
  assumes "owned_once s"
  shows "DeleteStructure s a = delete_this (UnLink s a) a
    \<and> (\<forall>l. a \<notin> set (dlists (UnLink s a) l))
    \<and> owner (UnLink s a) a = None
    \<and> objects (UnLink s a) = objects s
    \<and> owned_once (UnLink s a)
    \<and> (detached s a \<longrightarrow> UnLink s a = s)
    \<and> objects (DeleteStructure s a) a = None
    \<and> (\<forall>l. a \<notin> set (dlists (DeleteStructure s a) l))
    \<and> owned_once (DeleteStructure s a)"
proof -
  have gone: "\<forall>l. a \<notin> set (dlists (UnLink s a) l)"
    using assms by (simp add: UnLink_not_in_list)
  have inv: "owned_once (UnLink s a)"
    using assms by (rule UnLink_owned_once)
  have unowned: "owner (UnLink s a) a = None"
    by (simp add: UnLink_owner)
  have "owned_once (DeleteStructure s a)"
    unfolding DeleteStructure_def using inv unowned by (rule delete_this_owned_once)
  moreover have "\<forall>l. a \<notin> set (dlists (DeleteStructure s a) l)"
    using gone by (simp add: DeleteStructure_def delete_this_def)
  moreover have "objects (DeleteStructure s a) a = None"
    by (simp add: DeleteStructure_def delete_this_def)
  ultimately show ?thesis
    using gone inv unowned by (simp add: DeleteStructure_def UnLink_objects UnLink_detached)
qed

theorem DeleteStructure_unlinks_then_destroys_witness:
  "owned_once demo_store
   \<and> dlists (UnLink demo_store 2) 10 = [1, 3]
   \<and> objects (UnLink demo_store 2) 2 = Some \<lparr>m_Parent = None, m_Layer = 15\<rparr>
   \<and> owned_once (UnLink demo_store 2)
   \<and> \<not> detached demo_store 2
   \<and> detached demo_store 4
   \<and> UnLink demo_store 4 = demo_store
   \<and> dlists (DeleteStructure demo_store 2) 10 = [1, 3]
   \<and> objects (DeleteStructure demo_store 2) 2 = None
   \<and> owned_once (DeleteStructure demo_store 2)"
proof -
  note t2 = DeleteStructure_unlinks_then_destroys [OF demo_store_owned_once, of 2]
  note t4 = DeleteStructure_unlinks_then_destroys [OF demo_store_owned_once, of 4]
  have c2: "dlists (UnLink demo_store 2) 10 = [1, 3]"
    by (simp add: UnLink_def demo_store_def)
  have c3: "objects (UnLink demo_store 2) 2 = Some \<lparr>m_Parent = None, m_Layer = 15\<rparr>"
    by (simp add: UnLink_objects) (simp add: demo_store_def)
  have c4: "owned_once (UnLink demo_store 2)"
    using t2 by blast
  have c5: "\<not> detached demo_store 2"
    by (simp add: detached_def demo_store_def)
  have c6: "detached demo_store 4"
    by (simp add: detached_def demo_store_def)
  have c7: "UnLink demo_store 4 = demo_store"
    using t4 c6 by blast
  have c8: "dlists (DeleteStructure demo_store 2) 10 = [1, 3]"
    by (simp add: DeleteStructure_def delete_this_def UnLink_def demo_store_def)
  have c9: "objects (DeleteStructure demo_store 2) 2 = None"
    using t2 by blast
  have c10: "owned_once (DeleteStructure demo_store 2)"
    using t2 by blast
  show ?thesis
    by (intro conjI demo_store_owned_once c2 c3 c4 c5 c6 c7 c8 c9 c10)
qed

section \<open>The registry holds every screen once\<close>

lemma AddScreenToList_distinct:
  "distinct (m_screens r) \<Longrightarrow> distinct (m_screens (AddScreenToList aScreen r))"
  by (simp add: AddScreenToList_def)

lemma set_AddScreenToList:
  "set (m_screens (AddScreenToList aScreen r)) = insert aScreen (set (m_screens r))"
  by (auto simp: AddScreenToList_def)

lemma BuildScreenList_distinct:
  "distinct (m_screens r) \<Longrightarrow> distinct (m_screens (BuildScreenList aItem r))"
proof (induction aItem r rule: BuildScreenList.induct)
  case (1 scr items r)
  have "distinct (m_screens (AddScreenToList scr r))"
    using "1.prems" by (rule AddScreenToList_distinct)
  then have "distinct (m_screens (fold BuildScreenList items (AddScreenToList scr r)))"
    using "1.IH" by (induction items arbitrary: r rule: rev_induct) auto
  then show ?case by simp
next
  case (2 r)
  then show ?case by simp
qed

lemma set_BuildScreenList:
  "set (m_screens (BuildScreenList aItem r)) = set (m_screens r) \<union> screens_of aItem"
proof (induction aItem arbitrary: r)
  case (SCH_SHEET scr items)
  have "set (m_screens (fold BuildScreenList items r')) =
        set (m_screens r') \<union> \<Union> (screens_of ` set items)" for r'
    using SCH_SHEET by (induction items arbitrary: r') auto
  then show ?case by (simp add: set_AddScreenToList)
next
  case SCH_OTHER
  then show ?case by simp
qed

lemma SCH_SCREENS_ctor_distinct: "distinct (m_screens (SCH_SCREENS_ctor root))"
  unfolding SCH_SCREENS_ctor_def by (rule BuildScreenList_distinct) simp

text \<open>
  Claim C4. The registry built by traversal from the root holds exactly the screens the
  design references, each of them once, however many sheets reference it; and every
  registry that the operations on registries produce from there still holds no screen
  twice.
\<close>

theorem registry_holds_each_screen_once:
  "distinct (m_screens (SCH_SCREENS_ctor root))
   \<and> set (m_screens (SCH_SCREENS_ctor root)) = screens_of root
   \<and> (registry_reach r \<longrightarrow> distinct (m_screens r))"
proof (intro conjI impI)
  show "distinct (m_screens (SCH_SCREENS_ctor root))"
    by (rule SCH_SCREENS_ctor_distinct)
  show "set (m_screens (SCH_SCREENS_ctor root)) = screens_of root"
    by (simp add: SCH_SCREENS_ctor_def set_BuildScreenList)
  assume "registry_reach r"
  then show "distinct (m_screens r)"
  proof (induction rule: registry_reach.induct)
    case (reach_ctor root)
    show ?case by (rule SCH_SCREENS_ctor_distinct)
  next
    case (reach_AddScreenToList r aScreen)
    then show ?case by (simp add: AddScreenToList_distinct)
  next
    case (reach_BuildScreenList r aItem)
    then show ?case by (simp add: BuildScreenList_distinct)
  next
    case (reach_GetFirst r)
    then show ?case by (simp add: GetFirst_def)
  next
    case (reach_GetNext r)
    then show ?case by (simp add: GetNext_def Let_def)
  qed
qed

theorem registry_holds_each_screen_once_witness:
  "registry_reach (snd (GetNext (SCH_SCREENS_ctor demo_design)))
   \<and> m_screens (SCH_SCREENS_ctor demo_design) = [0, 1, 2]
   \<and> m_screens (snd (GetNext (SCH_SCREENS_ctor demo_design))) = [0, 1, 2]
   \<and> distinct (m_screens (snd (GetNext (SCH_SCREENS_ctor demo_design))))"
proof -
  have c1: "registry_reach (snd (GetNext (SCH_SCREENS_ctor demo_design)))"
    by (intro reach_GetNext reach_ctor)
  have c2: "m_screens (SCH_SCREENS_ctor demo_design) = [0, 1, 2]"
    by (simp add: SCH_SCREENS_ctor_def demo_design_def AddScreenToList_def)
  have c3: "m_screens (snd (GetNext (SCH_SCREENS_ctor demo_design))) = [0, 1, 2]"
    using c2 by (simp add: GetNext_def Let_def)
  have c4: "distinct (m_screens (snd (GetNext (SCH_SCREENS_ctor demo_design))))"
    using c1 registry_holds_each_screen_once
      [of demo_design "snd (GetNext (SCH_SCREENS_ctor demo_design))"]
    by blast
  show ?thesis
    by (intro conjI c1 c2 c3 c4)
qed

end
